theory Spec2Isabelle
  imports Complex_Main
begin

unbundle bit_operations_syntax

section \<open>Heading inference of \<open>src/Main.py\<close>\<close>

text \<open>
  The program reads a PDF through PyMuPDF and infers a title and an outline of
  H1/H2/H3 headings from font sizes.  The model below follows \<open>src/Main.py\<close>
  function by function.

  \<^item> A Python \<open>str\<close> is a sequence of Unicode code points: \<open>ustring\<close> is a list of
    natural numbers, and \<open>len\<close> is the length of that list.  A literal of the source is
    written \<open>ustr ''...''\<close>.
  \<^item> A Python \<open>float\<close> (font size, coordinate, page height) is a rational number; the
    functions only compare these values, take their maximum and minimum, and multiply a
    page height by \<open>0.1\<close> and \<open>0.9\<close> and a word count by \<open>0.8\<close>, written here \<open>1/10\<close>,
    \<open>9/10\<close> and \<open>8/10\<close>.
  \<^item> Python's \<open>str.isspace\<close> has a short fixed table, written out in \<open>isspace\<close>.  The
    other tables of the Unicode database that the program consults through
    \<open>str.isprintable\<close>, \<open>str.lower\<close> and the regular expression class \<open>\d\<close> are
    parameters, collected in the record \<open>unicode_tables\<close>: every theorem holds for all
    tables.
  \<^item> An exception is a value of type \<open>error\<close>; a function that can raise returns
    \<open>error + 'a\<close>.
\<close>

subsection \<open>Strings\<close>

type_synonym ustring = "nat list"

definition ustr :: "string \<Rightarrow> ustring" where
  "ustr s = map of_char s"

record unicode_tables =
  is_printable :: "nat \<Rightarrow> bool"
  is_decimal :: "nat \<Rightarrow> bool"
  str_lower :: "ustring \<Rightarrow> ustring"

text \<open>
  \<open>str.isspace\<close> of one code point: U+0009..U+000D, U+001C..U+0020, U+0085, U+00A0,
  U+1680, U+2000..U+200A, U+2028, U+2029, U+202F, U+205F, U+3000.
\<close>

definition isspace :: "nat \<Rightarrow> bool" where
  "isspace c \<longleftrightarrow>
     (9 \<le> c \<and> c \<le> 13) \<or> (28 \<le> c \<and> c \<le> 32) \<or> c = 133 \<or> c = 160 \<or> c = 5760 \<or>
     (8192 \<le> c \<and> c \<le> 8202) \<or> c = 8232 \<or> c = 8233 \<or> c = 8239 \<or> c = 8287 \<or> c = 12288"

text \<open>\<open>s.strip()\<close>: leading and trailing whitespace removed.\<close>

definition py_strip :: "ustring \<Rightarrow> ustring" where
  "py_strip s = rev (dropWhile isspace (rev (dropWhile isspace s)))"

text \<open>
  \<open>s.split()\<close>: the maximal runs of non-whitespace code points, in order.  The first
  argument of \<open>split_from\<close> is the word being read.
\<close>

fun split_from :: "ustring \<Rightarrow> ustring \<Rightarrow> ustring list" where
  "split_from cur [] = (if cur = [] then [] else [cur])"
| "split_from cur (c # cs) =
     (if isspace c then (if cur = [] then split_from [] cs else cur # split_from [] cs)
      else split_from (cur @ [c]) cs)"

definition py_split :: "ustring \<Rightarrow> ustring list" where
  "py_split s = split_from [] s"

definition startswith :: "ustring \<Rightarrow> ustring \<Rightarrow> bool" where
  "startswith s p \<longleftrightarrow> take (length p) s = p"

definition endswith :: "ustring \<Rightarrow> ustring \<Rightarrow> bool" where
  "endswith s p \<longleftrightarrow> length p \<le> length s \<and> drop (length s - length p) s = p"

text \<open>
  \<open>s.replace(old, '')\<close>: the occurrences of \<open>old\<close> found by one scan from the left, each
  search starting after the previous occurrence, are deleted.  With an empty \<open>old\<close> the
  string is returned as it is.
\<close>

function remove_all :: "ustring \<Rightarrow> ustring \<Rightarrow> ustring" where
  "remove_all old [] = []"
| "remove_all old (c # cs) =
     (if old \<noteq> [] \<and> startswith (c # cs) old
      then remove_all old (drop (length old) (c # cs))
      else c # remove_all old cs)"
  by pat_completeness auto
termination
  by (relation "measure (\<lambda>(old, s). length s)") (auto simp: neq_Nil_conv)

text \<open>\<open>s[:-n]\<close> for a positive \<open>n\<close>: all but the last \<open>n\<close> code points.\<close>

definition drop_last :: "nat \<Rightarrow> ustring \<Rightarrow> ustring" where
  "drop_last n s = take (length s - n) s"

subsection \<open>\<open>has_cjk\<close>\<close>

text \<open>
  The ranges are U+4E00..U+9FFF, U+3040..U+30FF and U+AC00..U+D7AF; Python compares
  one-character strings by code point.
\<close>

fun has_cjk :: "ustring \<Rightarrow> bool" where
  "has_cjk [] = False"
| "has_cjk (c # cs) =
     (if (19968 \<le> c \<and> c \<le> 40959) \<or> (12352 \<le> c \<and> c \<le> 12543) \<or> (44032 \<le> c \<and> c \<le> 55215)
      then True else has_cjk cs)"

subsection \<open>\<open>is_valid_heading\<close>\<close>

text \<open>
  \<open>re.match(r'^[\d\.]+$', text)\<close>: one or more decimal digits or dots, up to the end of
  the string or up to a line feed that ends the string.
\<close>

definition numeral_pattern :: "unicode_tables \<Rightarrow> ustring \<Rightarrow> bool" where
  "numeral_pattern db s \<longleftrightarrow>
     (s \<noteq> [] \<and> list_all (\<lambda>c. is_decimal db c \<or> c = 46) s) \<or>
     (s \<noteq> [] \<and> last s = 10 \<and> butlast s \<noteq> [] \<and>
      list_all (\<lambda>c. is_decimal db c \<or> c = 46) (butlast s))"

definition form_words :: "ustring list" where
  "form_words = map ustr
     [''name'', ''age'', ''date'', ''rs'', ''s.no'', ''sno'', ''signature'', ''designation'',
      ''service'', ''pay'', ''si'', ''npa'', ''permanent'', ''temporary'', ''home'', ''town'',
      ''recorded'', ''book'', ''wife'', ''husband'', ''employed'', ''entitled'', ''ltc'',
      ''concession'', ''availed'', ''visiting'', ''block'', ''india'', ''place'', ''visited'',
      ''single'', ''rail'', ''fare'', ''bus'', ''from'', ''headquarters'', ''shortest'',
      ''route'', ''persons'', ''respect'', ''whom'', ''proposed'', ''relationship'',
      ''amount'', ''advance'', ''required'', ''declare'', ''particulars'', ''furnished'',
      ''true'', ''correct'', ''knowledge'', ''undertake'', ''produce'', ''tickets'',
      ''outward'', ''journey'', ''receipt'', ''refund'', ''entire'', ''lump'', ''sum'']"

definition is_valid_heading :: "unicode_tables \<Rightarrow> ustring \<Rightarrow> bool" where
  "is_valid_heading db text0 =
     (let text = py_strip text0 in
      if length text < 3 then False
      else if numeral_pattern db text \<or> (length (py_split text) = 1 \<and> length text < 4)
      then False
      else
        let words = py_split (str_lower db text);
            form_count = length (filter (\<lambda>word. word \<in> set form_words) words)
        in if (of_nat form_count :: rat) > of_nat (length words) * (8 / 10) then False
           else if endswith text (ustr '':'') \<or> length (py_split text) > 10 then False
           else True)"

subsection \<open>The document as PyMuPDF presents it\<close>

text \<open>
  A span is a dictionary with the keys \<open>text\<close>, \<open>size\<close>, \<open>flags\<close> and \<open>bbox\<close>; a line is
  the list under its key \<open>spans\<close>; a block is the list of lines under its key \<open>lines\<close>,
  or \<open>None\<close> when the block has no such key (an image block).  A page has the height of
  its rectangle and its blocks.  The title of the metadata is \<open>None\<close> when
  \<open>doc.metadata.get('title')\<close> is.
\<close>

record span =
  span_text :: ustring
  span_size :: rat
  span_flags :: int
  span_bbox :: "rat \<times> rat \<times> rat \<times> rat"

type_synonym pdf_line = "span list"
type_synonym block = "pdf_line list option"

record page =
  rect_height :: rat
  blocks :: "block list"

record document =
  metadata_title :: "ustring option"
  pages :: "page list"

text \<open>What \<open>fitz.open\<close> does with the file: it raises, or it returns the document.\<close>

datatype pdf_file = Unparsable | Parsed document

datatype error = FileDataError | IndexError | ValueError

definition fitz_open :: "pdf_file \<Rightarrow> error + document" where
  "fitz_open f = (case f of Unparsable \<Rightarrow> Inl FileDataError | Parsed doc \<Rightarrow> Inr doc)"

definition bbox_y0 :: "span \<Rightarrow> rat" where
  "bbox_y0 s = (case span_bbox s of (x0, y0, x1, y1) \<Rightarrow> y0)"

definition bbox_y1 :: "span \<Rightarrow> rat" where
  "bbox_y1 s = (case span_bbox s of (x0, y0, x1, y1) \<Rightarrow> y1)"

definition is_bold :: "span \<Rightarrow> bool" where
  "is_bold s \<longleftrightarrow> span_flags s AND 2 \<noteq> 0"

text \<open>The spans of a page in reading order, image blocks skipped.\<close>

definition page_spans :: "page \<Rightarrow> span list" where
  "page_spans p = concat (concat (map (\<lambda>b. case b of None \<Rightarrow> [] | Some ls \<Rightarrow> ls) (blocks p)))"

definition page_lines :: "page \<Rightarrow> pdf_line list" where
  "page_lines p = concat (map (\<lambda>b. case b of None \<Rightarrow> [] | Some ls \<Rightarrow> ls) (blocks p))"

subsection \<open>\<open>extract_title\<close>\<close>

text \<open>
  \<open>max(items, key=lambda x: x[0])\<close> on a list with first element \<open>x\<close>: a later item
  replaces the best one only when its key is strictly larger.
\<close>

definition max_by_size :: "(rat \<times> ustring) \<Rightarrow> (rat \<times> ustring) list \<Rightarrow> rat \<times> ustring" where
  "max_by_size x xs = fold (\<lambda>item best. if fst item > fst best then item else best) xs x"

text \<open>Lines 58 and 59: the guard is on the prefix, the replacement on the whole string.\<close>

definition strip_word_prefix :: "ustring \<Rightarrow> ustring" where
  "strip_word_prefix title =
     (if startswith title (ustr ''Microsoft Word - '')
      then remove_all (ustr ''Microsoft Word - '') title else title)"

text \<open>Lines 60 and 61.\<close>

definition strip_doc_suffix :: "ustring \<Rightarrow> ustring" where
  "strip_doc_suffix title =
     (if endswith title (ustr ''.doc'') \<or> endswith title (ustr ''.docx'')
      then (if endswith title (ustr ''.docx'') then drop_last 4 title else drop_last 3 title)
      else title)"

definition clean_title :: "ustring \<Rightarrow> ustring" where
  "clean_title meta = strip_doc_suffix (strip_word_prefix (py_strip meta))"

text \<open>
  The part of \<open>extract_title\<close> after the metadata: \<open>doc[0]\<close> raises when the document
  has no page.
\<close>

definition extract_title_page :: "document \<Rightarrow> error + ustring" where
  "extract_title_page doc =
     (case pages doc of
        [] \<Rightarrow> Inl IndexError
      | p # _ \<Rightarrow>
          let candidates =
                map (\<lambda>s. (span_size s, py_strip (span_text s)))
                  (filter (\<lambda>s. py_strip (span_text s) \<noteq> [] \<and> span_size s \<ge> 15 \<and> is_bold s)
                     (page_spans p))
          in (case candidates of
                x # xs \<Rightarrow> Inr (snd (max_by_size x xs))
              | [] \<Rightarrow>
                  (let all_texts =
                         map (\<lambda>s. (span_size s, py_strip (span_text s)))
                           (filter (\<lambda>s. py_strip (span_text s) \<noteq> []) (page_spans p))
                   in (case all_texts of
                         x # xs \<Rightarrow> Inr (snd (max_by_size x xs))
                       | [] \<Rightarrow> Inr (ustr ''Untitled PDF'')))))"

definition extract_title :: "document \<Rightarrow> error + ustring" where
  "extract_title doc =
     (case metadata_title doc of
        Some meta \<Rightarrow>
          if meta \<noteq> [] \<and> py_strip meta \<noteq> [] then Inr (clean_title meta)
          else extract_title_page doc
      | None \<Rightarrow> extract_title_page doc)"

subsection \<open>\<open>get_heading_levels\<close>\<close>

text \<open>
  A \<open>Counter\<close> and a \<open>defaultdict(int)\<close> are dictionaries in insertion order: lists of
  key and count.  \<open>incr k\<close> is \<open>counter[k] += 1\<close>.
\<close>

fun incr :: "'k \<Rightarrow> ('k \<times> int) list \<Rightarrow> ('k \<times> int) list" where
  "incr k [] = [(k, 1)]"
| "incr k ((k', c) # rest) = (if k' = k then (k', c + 1) # rest else (k', c) # incr k rest)"

definition Counter :: "'k list \<Rightarrow> ('k \<times> int) list" where
  "Counter xs = fold incr xs []"

text \<open>
  \<open>most_common()\<close> sorts the items by count, largest first, and keeps equal counts in
  insertion order.
\<close>

definition most_common :: "('k \<times> int) list \<Rightarrow> ('k \<times> int) list" where
  "most_common items = sort_key (\<lambda>(s, c). - c) items"

text \<open>
  \<open>sorted(common, reverse=True)\<close> is the reversed ascending sort, the elements of
  \<open>common\<close> being distinct.
\<close>

definition get_heading_levels :: "rat list \<Rightarrow> rat list" where
  "get_heading_levels font_sizes =
     (let counts = Counter font_sizes;
          common = map fst (most_common counts);
          common = rev (sort common)
      in take 3 (common @ [0, 0, 0]))"

subsection \<open>\<open>find_repeated_elements\<close>\<close>

record line_feature =
  lf_text :: ustring
  lf_size :: rat
  lf_bold :: bool
  lf_y0 :: rat
  lf_y1 :: rat
  lf_page :: int

text \<open>
  The test of line 101.  The products \<open>page_height * 0.1\<close> and \<open>page_height * 0.9\<close> are
  taken in the rationals, with \<open>1/10\<close> and \<open>9/10\<close>; Python rounds each product to a
  double.  The two agree on the coordinates of the examples below; a coordinate within
  one rounding step of the product may compare differently.
\<close>

definition in_margin :: "rat \<Rightarrow> line_feature \<Rightarrow> bool" where
  "in_margin page_height feat \<longleftrightarrow>
     lf_y0 feat < page_height * (1 / 10) \<or> lf_y1 feat > page_height * (9 / 10)"

definition margin_counter :: "line_feature list \<Rightarrow> rat \<Rightarrow> (ustring \<times> int) list" where
  "margin_counter lines page_height =
     fold (\<lambda>feat counter. if in_margin page_height feat then incr (lf_text feat) counter
                           else counter) lines []"

definition find_repeated_elements :: "line_feature list \<Rightarrow> int \<Rightarrow> rat \<Rightarrow> ustring set" where
  "find_repeated_elements lines num_pages page_height =
     set (map fst (filter (\<lambda>(t, c). c > num_pages div 2) (margin_counter lines page_height)))"

subsection \<open>\<open>extract_outline\<close>\<close>

definition MAX_PAGES :: nat where
  "MAX_PAGES = 50"

record outline_entry =
  entry_level :: string
  entry_text :: ustring
  entry_page :: int

record document_outline =
  out_title :: ustring
  out_outline :: "outline_entry list"

text \<open>
  One line of page \<open>i\<close>: \<open>None\<close> is the \<open>continue\<close> of the loop.  A line without spans has
  the empty text and is skipped before \<open>max\<close> and \<open>min\<close> are taken, so these are taken of
  a non-empty list.
\<close>

fun line_feature_of :: "unicode_tables \<Rightarrow> nat \<Rightarrow> pdf_line \<Rightarrow> line_feature option" where
  "line_feature_of db i [] = None"
| "line_feature_of db i (s # ss) =
     (let txt = py_strip (concat (map span_text (s # ss))) in
      if txt = [] \<or> \<not> list_all (is_printable db) txt \<or> length (py_split txt) > 20 then None
      else Some \<lparr> lf_text = txt,
                  lf_size = fold max (map span_size ss) (span_size s),
                  lf_bold = list_ex is_bold (s # ss),
                  lf_y0 = fold min (map bbox_y0 ss) (bbox_y0 s),
                  lf_y1 = fold max (map bbox_y1 ss) (bbox_y1 s),
                  lf_page = int i + 1 \<rparr>)"

definition collect_lines :: "unicode_tables \<Rightarrow> document \<Rightarrow> nat \<Rightarrow> line_feature list" where
  "collect_lines db doc num_pages =
     concat (map (\<lambda>i. List.map_filter (line_feature_of db i) (page_lines (pages doc ! i)))
               [0..<num_pages])"

text \<open>The loop over the collected lines; \<open>outline\<close> is the list appended to.\<close>

fun extract_headings ::
  "unicode_tables \<Rightarrow> ustring set \<Rightarrow> rat \<Rightarrow> rat \<Rightarrow> rat \<Rightarrow> line_feature list \<Rightarrow>
   outline_entry list \<Rightarrow> outline_entry list" where
  "extract_headings db repeated h1_size h2_size h3_size [] outline = outline"
| "extract_headings db repeated h1_size h2_size h3_size (feat # rest) outline =
     (let txt = lf_text feat in
      if txt \<in> repeated \<or> \<not> is_valid_heading db txt
      then extract_headings db repeated h1_size h2_size h3_size rest outline
      else
        let size = lf_size feat; bold = lf_bold feat; page_num = lf_page feat in
        if size = h1_size \<and> (bold \<or> \<not> has_cjk txt)
        then extract_headings db repeated h1_size h2_size h3_size rest
               (outline @ [\<lparr> entry_level = ''H1'', entry_text = txt, entry_page = page_num \<rparr>])
        else if size = h2_size
        then extract_headings db repeated h1_size h2_size h3_size rest
               (outline @ [\<lparr> entry_level = ''H2'', entry_text = txt, entry_page = page_num \<rparr>])
        else if size = h3_size
        then extract_headings db repeated h1_size h2_size h3_size rest
               (outline @ [\<lparr> entry_level = ''H3'', entry_text = txt, entry_page = page_num \<rparr>])
        else extract_headings db repeated h1_size h2_size h3_size rest outline)"

definition num_pages_of :: "document \<Rightarrow> nat" where
  "num_pages_of doc = min (length (pages doc)) MAX_PAGES"

definition page_height_of :: "document \<Rightarrow> rat" where
  "page_height_of doc = (if num_pages_of doc > 0 then rect_height (pages doc ! 0) else 0)"

definition repeated_of :: "unicode_tables \<Rightarrow> document \<Rightarrow> ustring set" where
  "repeated_of db doc =
     find_repeated_elements (collect_lines db doc (num_pages_of doc))
       (int (num_pages_of doc)) (page_height_of doc)"

text \<open>
  \<open>h1_size, h2_size, h3_size = get_heading_levels(font_sizes)\<close> raises ValueError unless
  the list has three elements.
\<close>

definition extract_outline :: "unicode_tables \<Rightarrow> pdf_file \<Rightarrow> error + document_outline" where
  "extract_outline db pdf =
     (case fitz_open pdf of
        Inl e \<Rightarrow> Inl e
      | Inr doc \<Rightarrow>
          let lines = collect_lines db doc (num_pages_of doc);
              font_sizes = map lf_size lines;
              repeated = repeated_of db doc
          in (case get_heading_levels font_sizes of
                [h1_size, h2_size, h3_size] \<Rightarrow>
                  (let outline = extract_headings db repeated h1_size h2_size h3_size lines []
                   in (case extract_title doc of
                         Inl e \<Rightarrow> Inl e
                       | Inr title \<Rightarrow> Inr \<lparr> out_title = title, out_outline = outline \<rparr>))
              | _ \<Rightarrow> Inl ValueError))"

section \<open>Notions used in the statements\<close>

text \<open>
  The thresholds as the specification words them: the three most frequent distinct
  sizes, the largest of these first, padded with 0.
\<close>

definition spec_heading_levels :: "rat list \<Rightarrow> rat list" where
  "spec_heading_levels font_sizes =
     take 3 (rev (sort (take 3 (map fst (most_common (Counter font_sizes))))) @ [0, 0, 0])"

text \<open>The count stored under a key, 0 for a key that is absent.\<close>

definition count_of :: "('k \<times> int) list \<Rightarrow> 'k \<Rightarrow> int" where
  "count_of m k = (case map_of m k of None \<Rightarrow> 0 | Some c \<Rightarrow> c)"

text \<open>The number of collected lines with text \<open>t\<close> that lie in a margin zone.\<close>

definition margin_occurrences :: "line_feature list \<Rightarrow> rat \<Rightarrow> ustring \<Rightarrow> int" where
  "margin_occurrences lines page_height t =
     int (length (filter (\<lambda>feat. in_margin page_height feat \<and> lf_text feat = t) lines))"

text \<open>The distinct pages on which a line with text \<open>t\<close> lies in a margin zone.\<close>

definition margin_pages :: "line_feature list \<Rightarrow> rat \<Rightarrow> ustring \<Rightarrow> int list" where
  "margin_pages lines page_height t =
     remdups (map lf_page (filter (\<lambda>feat. in_margin page_height feat \<and> lf_text feat = t) lines))"

text \<open>What one collected line adds to the outline.\<close>

definition level_entry ::
  "unicode_tables \<Rightarrow> ustring set \<Rightarrow> rat \<Rightarrow> rat \<Rightarrow> rat \<Rightarrow> line_feature \<Rightarrow> outline_entry list" where
  "level_entry db repeated h1 h2 h3 feat =
     (if lf_text feat \<in> repeated \<or> \<not> is_valid_heading db (lf_text feat) then []
      else if lf_size feat = h1 \<and> (lf_bold feat \<or> \<not> has_cjk (lf_text feat))
        then [\<lparr> entry_level = ''H1'', entry_text = lf_text feat, entry_page = lf_page feat \<rparr>]
      else if lf_size feat = h2
        then [\<lparr> entry_level = ''H2'', entry_text = lf_text feat, entry_page = lf_page feat \<rparr>]
      else if lf_size feat = h3
        then [\<lparr> entry_level = ''H3'', entry_text = lf_text feat, entry_page = lf_page feat \<rparr>]
      else [])"

subsection \<open>Sample data\<close>

text \<open>
  Tables for the examples: Python's tables on ASCII and on the ideographs
  U+4E00..U+9FA5, which are printable, are no digits and have no case.  The examples use
  no other code point.
\<close>

definition sample_tables :: unicode_tables where
  "sample_tables =
     \<lparr> is_printable = (\<lambda>c. (32 \<le> c \<and> c \<le> 126) \<or> (19968 \<le> c \<and> c \<le> 40869)),
       is_decimal = (\<lambda>c. 48 \<le> c \<and> c \<le> 57),
       str_lower = map (\<lambda>c. if 65 \<le> c \<and> c \<le> 90 then c + 32 else c) \<rparr>"

text \<open>
  A document of one page, 800 high: an image block, then a block of four lines of one
  span each.  The first line lies in the top margin; the last one is four ideographs.
\<close>

definition sample_doc :: document where
  "sample_doc =
     \<lparr> metadata_title = None,
       pages =
         [\<lparr> rect_height = 800,
            blocks =
              [None,
               Some [[\<lparr> span_text = ustr ''Header'', span_size = 20, span_flags = 0,
                        span_bbox = (50, 10, 200, 30) \<rparr>],
                     [\<lparr> span_text = ustr ''Intro'', span_size = 20, span_flags = 0,
                        span_bbox = (50, 100, 200, 120) \<rparr>],
                     [\<lparr> span_text = ustr ''Abc def'', span_size = 10, span_flags = 0,
                        span_bbox = (50, 200, 200, 210) \<rparr>],
                     [\<lparr> span_text = [20013, 25991, 26631, 39064], span_size = 20,
                        span_flags = 0, span_bbox = (50, 300, 200, 320) \<rparr>]]] \<rparr>] \<rparr>"

definition header_line :: line_feature where
  "header_line = \<lparr> lf_text = ustr ''Header'', lf_size = 20, lf_bold = False,
                   lf_y0 = 10, lf_y1 = 30, lf_page = 1 \<rparr>"

definition intro_line :: line_feature where
  "intro_line = \<lparr> lf_text = ustr ''Intro'', lf_size = 20, lf_bold = False,
                  lf_y0 = 100, lf_y1 = 120, lf_page = 1 \<rparr>"

definition body_line :: line_feature where
  "body_line = \<lparr> lf_text = ustr ''Abc def'', lf_size = 10, lf_bold = False,
                 lf_y0 = 200, lf_y1 = 210, lf_page = 1 \<rparr>"

definition cjk_line :: line_feature where
  "cjk_line = \<lparr> lf_text = [20013, 25991, 26631, 39064], lf_size = 20, lf_bold = False,
                lf_y0 = 300, lf_y1 = 320, lf_page = 1 \<rparr>"

definition intro_entry :: outline_entry where
  "intro_entry = \<lparr> entry_level = ''H1'', entry_text = ustr ''Intro'', entry_page = 1 \<rparr>"

definition body_entry :: outline_entry where
  "body_entry = \<lparr> entry_level = ''H2'', entry_text = ustr ''Abc def'', entry_page = 1 \<rparr>"

definition sample_result :: document_outline where
  "sample_result = \<lparr> out_title = ustr ''Header'', out_outline = [intro_entry, body_entry] \<rparr>"

text \<open>The same text in the top and in the bottom margin of page 1.\<close>

definition header_twice :: "line_feature list" where
  "header_twice =
     [\<lparr> lf_text = ustr ''Hdr'', lf_size = 10, lf_bold = False, lf_y0 = 5, lf_y1 = 15, lf_page = 1 \<rparr>,
      \<lparr> lf_text = ustr ''Hdr'', lf_size = 10, lf_bold = False, lf_y0 = 785, lf_y1 = 795,
        lf_page = 1 \<rparr>]"

text \<open>Documents without pages, with and without a title in the metadata.\<close>

definition titled_empty_doc :: document where
  "titled_empty_doc = \<lparr> metadata_title = Some (ustr ''Report''), pages = [] \<rparr>"

definition untitled_empty_doc :: document where
  "untitled_empty_doc = \<lparr> metadata_title = None, pages = [] \<rparr>"

text \<open>
  An occurrence of \<open>old\<close> in \<open>s\<close> starts at \<open>i\<close> when \<open>s\<close> continues with \<open>old\<close> from
  there.  Position \<open>j\<close> of \<open>s\<close> is covered when it lies inside an occurrence, and
  \<open>without_occurrences\<close> keeps the code points of \<open>s\<close> that no occurrence covers.
\<close>

definition covered :: "ustring \<Rightarrow> ustring \<Rightarrow> nat \<Rightarrow> bool" where
  "covered old s j \<longleftrightarrow> (\<exists>i \<le> j. j < i + length old \<and> startswith (drop i s) old)"

definition without_occurrences :: "ustring \<Rightarrow> ustring \<Rightarrow> ustring" where
  "without_occurrences old s = nths s {j. \<not> covered old s j}"

definition word_inside_doc :: document where
  "word_inside_doc = \<lparr> metadata_title = Some (ustr ''A Microsoft Word - B''), pages = [] \<rparr>"

definition word_twice_doc :: document where
  "word_twice_doc =
     \<lparr> metadata_title = Some (ustr ''Microsoft Word - A Microsoft Word - B''), pages = [] \<rparr>"

section \<open>Facts about the strings and the counters\<close>

declare remove_all.simps [simp del]

lemma isspace_32: "isspace 32"
  by (simp add: isspace_def)

lemma word_prefix_facts:
  "last (ustr ''Microsoft Word - '') = 32" "ustr ''Microsoft Word - '' \<noteq> []"
  by (simp_all add: ustr_def)

lemma py_strip_last: "py_strip s \<noteq> [] \<Longrightarrow> \<not> isspace (last (py_strip s))"
  using hd_dropWhile[of isspace "rev (dropWhile isspace s)"]
  by (simp add: py_strip_def last_rev)

lemma startswith_append: "startswith s p \<Longrightarrow> s = p @ drop (length p) s"
  unfolding startswith_def by (metis append_take_drop_id)

text \<open>
  A string whose last code point is not the last one of \<open>old\<close> keeps its last code point
  under \<open>replace(old, '')\<close>.
\<close>

lemma remove_all_last:
  "s \<noteq> [] \<Longrightarrow> old \<noteq> [] \<Longrightarrow> last s \<noteq> last old \<Longrightarrow>
     remove_all old s \<noteq> [] \<and> last (remove_all old s) = last s"
proof (induction old s rule: remove_all.induct)
  case (1 old)
  then show ?case by simp
next
  case (2 old c cs)
  show ?case
  proof (cases "old \<noteq> [] \<and> startswith (c # cs) old")
    case True
    let ?rest = "drop (length old) (c # cs)"
    have eq: "c # cs = old @ ?rest" using True by (simp add: startswith_append)
    have ne: "?rest \<noteq> []"
    proof
      assume "?rest = []"
      with eq have "c # cs = old" by simp
      with "2.prems"(3) show False by simp
    qed
    have l: "last ?rest = last (c # cs)"
      using eq ne by (metis last_appendR)
    have u: "remove_all old (c # cs) = remove_all old ?rest"
      using True by (simp only: remove_all.simps(2) if_True simp_thms)
    have "last ?rest \<noteq> last old" using l "2.prems"(3) by metis
    from "2.IH"(1)[OF True ne "2.prems"(2) this] l
    show ?thesis by (simp add: u)
  next
    case False
    have u: "remove_all old (c # cs) = c # remove_all old cs"
      using False by (simp only: remove_all.simps(2) if_False)
    show ?thesis
    proof (cases "cs = []")
      case True
      with u show ?thesis by (simp add: remove_all.simps(1))
    next
      case cs: False
      then have "last cs = last (c # cs)" by simp
      with "2.IH"(2)[OF False cs "2.prems"(2)] "2.prems"(3)
      show ?thesis by (simp add: u)
    qed
  qed
qed

lemma drop_last_nonempty: "endswith s p \<Longrightarrow> n < length p \<Longrightarrow> drop_last n s \<noteq> []"
  by (auto simp: endswith_def drop_last_def)

lemma keys_incr:
  "map fst (incr k m) = (if k \<in> fst ` set m then map fst m else map fst m @ [k])"
  by (induction m) force+

lemma distinct_incr: "distinct (map fst m) \<Longrightarrow> distinct (map fst (incr k m))"
  by (simp add: keys_incr)

lemma count_of_incr: "count_of (incr k m) k' = count_of m k' + (if k' = k then 1 else 0)"
  by (induction m) (auto simp: count_of_def)

lemma positive_incr: "\<forall>(k, c) \<in> set m. 0 < c \<Longrightarrow> \<forall>(k, c) \<in> set (incr k' m). 0 < c"
  by (induction m) (auto split: if_splits)

lemma set_map_filter_iff:
  "y \<in> set (List.map_filter f xs) \<longleftrightarrow> (\<exists>x \<in> set xs. f x = Some y)"
  by (induction xs) (auto split: option.splits)

section \<open>The heading thresholds\<close>

lemma length_get_heading_levels: "length (get_heading_levels fs) = 3"
  by (simp add: get_heading_levels_def Let_def)

lemma get_heading_levels_three: "\<exists>h1 h2 h3. get_heading_levels fs = [h1, h2, h3]"
proof -
  have "length (get_heading_levels fs) = 3" by (rule length_get_heading_levels)
  then show ?thesis
    by (cases "get_heading_levels fs" rule: list.exhaust)
      (auto simp: length_Suc_conv numeral_3_eq_3)
qed

lemma keys_fold_incr:
  "distinct (map fst m) \<Longrightarrow>
     distinct (map fst (fold incr xs m)) \<and> set (map fst (fold incr xs m)) = set (map fst m) \<union> set xs"
proof (induction xs arbitrary: m)
  case Nil
  then show ?case by simp
next
  case (Cons x xs)
  have "distinct (map fst (incr x m))" using Cons.prems by (rule distinct_incr)
  from Cons.IH[OF this] show ?case by (auto simp: keys_incr)
qed

lemma keys_most_common:
  "distinct (map fst m) \<Longrightarrow>
     distinct (map fst (most_common m)) \<and> set (map fst (most_common m)) = set (map fst m)"
  by (simp add: most_common_def distinct_map)

text \<open>
  For every input the function returns the three largest distinct sizes, largest first,
  padded with 0: the counts do not enter the result.
\<close>

lemma get_heading_levels_largest:
  "get_heading_levels fs = take 3 (rev (sorted_list_of_set (set fs)) @ [0, 0, 0])"
proof -
  let ?common = "map fst (most_common (Counter fs))"
  have c: "distinct (map fst (Counter fs)) \<and> set (map fst (Counter fs)) = set fs"
    using keys_fold_incr[of "[]" fs] by (simp add: Counter_def)
  with keys_most_common[of "Counter fs"] have "distinct ?common" and "set ?common = set fs"
    by simp_all
  then have "sort ?common = sorted_list_of_set (set fs)"
    by (metis sorted_list_of_set_sort_remdups distinct_remdups_id)
  then have "get_heading_levels fs = take 3 (rev (sort ?common) @ [0, 0, 0])
      \<and> sort ?common = sorted_list_of_set (set fs)"
    by (simp only: get_heading_levels_def Let_def simp_thms)
  then show ?thesis by (simp only:)
qed

text \<open>
  C1.  The claim: the thresholds are the three most frequent distinct sizes, the largest
  of these being \<open>h1Size\<close>.  The function sorts all distinct sizes by magnitude before it
  takes three, so the frequencies have no influence.  For the sizes 12 (three times), 10
  (twice), 14 (twice) and 18 (once) the three most frequent sizes are 12, 10 and 14, and
  the function returns 18, 14 and 12.
\<close>

theorem get_heading_levels_ignores_frequency:
  "get_heading_levels [12, 12, 12, 10, 10, 14, 14, 18] = [18, 14, 12] \<and>
   spec_heading_levels [12, 12, 12, 10, 10, 14, 14, 18] = [14, 12, 10]"
  by (simp add: get_heading_levels_def spec_heading_levels_def Counter_def most_common_def)

section \<open>The title\<close>

text \<open>
  C2.  The claim: the metadata title \<open>Microsoft Word - Budget.docx\<close> gives the title
  \<open>Budget\<close>.  The slice \<open>title[:-4]\<close> removes four code points of the five of \<open>.docx\<close>:
  the function returns \<open>Budget.\<close>, with the dot.
\<close>

theorem extract_title_budget_docx:
  "extract_title \<lparr> metadata_title = Some (ustr ''Microsoft Word - Budget.docx''), pages = ps \<rparr>
     = Inr (ustr ''Budget.'')"
  by (simp add: extract_title_def clean_title_def strip_word_prefix_def strip_doc_suffix_def
      ustr_def py_strip_def isspace_def startswith_def endswith_def drop_last_def
      remove_all.simps)

lemma clean_title_nonempty:
  assumes "py_strip meta \<noteq> []"
  shows "clean_title meta \<noteq> []"
proof -
  let ?t = "py_strip meta"
  let ?p = "ustr ''Microsoft Word - ''"
  define t' where "t' = strip_word_prefix ?t"
  have "last ?t \<noteq> 32" using py_strip_last[OF assms] isspace_32 by metis
  then have "last ?t \<noteq> last ?p" by (simp add: word_prefix_facts)
  from remove_all_last[OF assms word_prefix_facts(2) this] assms
  have ne: "t' \<noteq> []" by (simp add: t'_def strip_word_prefix_def)
  have len: "length (ustr ''.docx'') = 5" "length (ustr ''.doc'') = 4"
    by (simp_all add: ustr_def)
  have "clean_title meta = strip_doc_suffix t'"
    by (simp add: clean_title_def t'_def)
  then show ?thesis
    using ne drop_last_nonempty[of t' "ustr ''.docx''" 4]
      drop_last_nonempty[of t' "ustr ''.doc''" 3] len
    by (auto simp: strip_doc_suffix_def split: if_splits)
qed

lemma max_by_size_mem: "max_by_size x xs \<in> set (x # xs)"
proof -
  have "fold (\<lambda>item best. if fst item > fst best then item else best) xs x \<in> set (x # xs)"
    for x :: "rat \<times> ustring"
    by (induction xs arbitrary: x) (auto split: if_splits)
  then show ?thesis by (simp add: max_by_size_def)
qed

lemma extract_title_page_nonempty:
  assumes "extract_title_page doc = Inr t"
  shows "t \<noteq> []"
proof (cases "pages doc")
  case Nil
  with assms show ?thesis by (simp add: extract_title_page_def)
next
  case (Cons p ps)
  let ?cands = "map (\<lambda>s. (span_size s, py_strip (span_text s)))
                  (filter (\<lambda>s. py_strip (span_text s) \<noteq> [] \<and> span_size s \<ge> 15 \<and> is_bold s)
                     (page_spans p))"
  let ?all = "map (\<lambda>s. (span_size s, py_strip (span_text s)))
                  (filter (\<lambda>s. py_strip (span_text s) \<noteq> []) (page_spans p))"
  have c: "\<forall>y \<in> set ?cands. snd y \<noteq> []" and a: "\<forall>y \<in> set ?all. snd y \<noteq> []"
    by auto
  show ?thesis
  proof (cases ?cands)
    case (Cons x xs)
    then have "t = snd (max_by_size x xs)"
      using assms \<open>pages doc = p # ps\<close> by (simp add: extract_title_page_def Let_def)
    moreover have m: "max_by_size x xs \<in> set ?cands"
      using max_by_size_mem[of x xs] Cons by simp
    moreover have "snd (max_by_size x xs) \<noteq> []" using bspec[OF c m] .
    ultimately show ?thesis by simp
  next
    case Nil
    note n = Nil
    show ?thesis
    proof (cases ?all)
      case (Cons x xs)
      then have "t = snd (max_by_size x xs)"
        using assms \<open>pages doc = p # ps\<close> n by (simp add: extract_title_page_def Let_def)
      moreover have m: "max_by_size x xs \<in> set ?all"
        using max_by_size_mem[of x xs] Cons by simp
      moreover have "snd (max_by_size x xs) \<noteq> []" using bspec[OF a m] .
      ultimately show ?thesis by simp
    next
      case Nil
      then have "t = ustr ''Untitled PDF''"
        using assms \<open>pages doc = p # ps\<close> n by (simp add: extract_title_page_def Let_def)
      then show ?thesis by (simp add: ustr_def)
    qed
  qed
qed

lemma extract_title_nonempty:
  assumes "extract_title doc = Inr t"
  shows "t \<noteq> []"
  using assms extract_title_page_nonempty[of doc t] clean_title_nonempty
  by (auto simp: extract_title_def split: option.splits if_splits)

section \<open>The repeated elements\<close>

lemma margin_fold_invariant:
  assumes "distinct (map fst m)" and "\<forall>(k, c) \<in> set m. 0 < c"
  defines "step \<equiv> (\<lambda>h feat counter.
             if in_margin h feat then incr (lf_text feat) counter else counter)"
  shows "distinct (map fst (fold (step h) ls m)) \<and>
         (\<forall>(k, c) \<in> set (fold (step h) ls m). 0 < c) \<and>
         (\<forall>t. count_of (fold (step h) ls m) t = count_of m t + margin_occurrences ls h t)"
  using assms(1,2)
proof (induction ls arbitrary: m)
  case Nil
  then show ?case by (simp add: margin_occurrences_def)
next
  case (Cons f ls)
  have d: "distinct (map fst (step h f m))"
    using Cons.prems(1) by (simp add: step_def distinct_incr)
  have p: "\<forall>(k, c) \<in> set (step h f m). 0 < c"
    using Cons.prems(2) positive_incr[of m "lf_text f"] by (simp add: step_def)
  have c: "count_of (step h f m) t = count_of m t + margin_occurrences [f] h t" for t
    by (simp add: step_def count_of_incr margin_occurrences_def)
  have split: "margin_occurrences (f # ls) h t =
                 margin_occurrences [f] h t + margin_occurrences ls h t" for t
    by (simp add: margin_occurrences_def)
  from Cons.IH[OF d p] show ?case
    by (simp add: c split)
qed

lemma margin_counter_props:
  "distinct (map fst (margin_counter ls h))"
  "\<forall>(k, c) \<in> set (margin_counter ls h). 0 < c"
  "count_of (margin_counter ls h) t = margin_occurrences ls h t"
  using margin_fold_invariant[of "[]" h ls]
  by (simp_all add: margin_counter_def count_of_def)

lemma find_repeated_elements_iff:
  "t \<in> find_repeated_elements ls n h \<longleftrightarrow>
     0 < margin_occurrences ls h t \<and> n div 2 < margin_occurrences ls h t"
proof -
  let ?m = "margin_counter ls h"
  have d: "distinct (map fst ?m)" and p: "\<forall>(k, c) \<in> set ?m. 0 < c"
    and c: "count_of ?m t = margin_occurrences ls h t"
    by (rule margin_counter_props)+
  show ?thesis
  proof (cases "map_of ?m t")
    case None
    then have "t \<notin> fst ` set ?m" by (simp add: map_of_eq_None_iff)
    then have "t \<notin> find_repeated_elements ls n h"
      by (auto simp: find_repeated_elements_def)
    moreover have "margin_occurrences ls h t = 0"
      using c None by (simp add: count_of_def)
    ultimately show ?thesis by simp
  next
    case (Some v)
    then have mem: "(t, v) \<in> set ?m" by (rule map_of_SomeD)
    then have pos: "0 < v" using p by auto
    have v: "margin_occurrences ls h t = v" using c Some by (simp add: count_of_def)
    have "t \<in> find_repeated_elements ls n h \<longleftrightarrow> n div 2 < v"
    proof
      assume "t \<in> find_repeated_elements ls n h"
      then obtain c' where "(t, c') \<in> set ?m" "n div 2 < c'"
        by (auto simp: find_repeated_elements_def)
      moreover have "c' = v" using d \<open>(t, c') \<in> set ?m\<close> Some by simp
      ultimately show "n div 2 < v" by simp
    next
      assume "n div 2 < v"
      with mem show "t \<in> find_repeated_elements ls n h"
        by (force simp: find_repeated_elements_def)
    qed
    with pos v show ?thesis by simp
  qed
qed

lemma margin_occurrences_positive:
  "0 < margin_occurrences ls h t \<longleftrightarrow> (\<exists>feat \<in> set ls. in_margin h feat \<and> lf_text feat = t)"
  by (auto simp: margin_occurrences_def filter_empty_conv)

text \<open>
  What the function computes, for every input.  For a page count that is not negative the
  set holds the texts with more than \<open>num_pages // 2\<close> lines in a margin zone, each line
  counted: the pages of the lines do not enter the result.  For a page count of at most 1
  the set holds the text of every line in a margin zone.
\<close>

lemma find_repeated_elements_occurrences:
  assumes "0 \<le> num_pages"
  shows "find_repeated_elements lines num_pages page_height =
           {t. num_pages div 2 < margin_occurrences lines page_height t}"
proof (rule set_eqI)
  fix t
  have "0 \<le> num_pages div 2" using assms by simp
  then show "t \<in> find_repeated_elements lines num_pages page_height \<longleftrightarrow>
               t \<in> {t. num_pages div 2 < margin_occurrences lines page_height t}"
    using find_repeated_elements_iff[of t lines num_pages page_height] by simp linarith
qed

lemma find_repeated_elements_at_most_one_page:
  assumes "num_pages \<le> 1"
  shows "find_repeated_elements lines num_pages page_height =
           lf_text ` {feat \<in> set lines. in_margin page_height feat}"
proof (rule set_eqI)
  fix t
  have "num_pages div 2 \<le> 0" using assms by simp
  then have "t \<in> find_repeated_elements lines num_pages page_height \<longleftrightarrow>
               0 < margin_occurrences lines page_height t"
    using find_repeated_elements_iff[of t lines num_pages page_height] by simp linarith
  also have "\<dots> \<longleftrightarrow> (\<exists>feat \<in> set lines. in_margin page_height feat \<and> lf_text feat = t)"
    by (rule margin_occurrences_positive)
  also have "\<dots> \<longleftrightarrow> t \<in> lf_text ` {feat \<in> set lines. in_margin page_height feat}"
    by blast
  finally show "t \<in> find_repeated_elements lines num_pages page_height \<longleftrightarrow>
                  t \<in> lf_text ` {feat \<in> set lines. in_margin page_height feat}" .
qed

text \<open>
  C3.  The claim: a text is in the set exactly when it lies in a margin zone on more than
  \<open>numPages // 2\<close> distinct pages.  The docstring of the function says the same of its
  purpose: headers and footers that appear on multiple pages.  The counter is keyed by
  the text alone and is incremented for every line, so two lines of one page count as
  two pages would: in a document of two pages, 800 high, the text \<open>Hdr\<close> in the top and
  in the bottom margin of page 1 has the count 2, which exceeds 1, and is in the set,
  while it lies on one page only.
\<close>

theorem find_repeated_elements_one_page_twice:
  "ustr ''Hdr'' \<in> find_repeated_elements header_twice 2 800 \<and>
   \<not> 2 div 2 < int (length (margin_pages header_twice 800 (ustr ''Hdr'')))"
  by (simp add: find_repeated_elements_def margin_counter_def margin_pages_def in_margin_def
      header_twice_def ustr_def)

text \<open>
  C5.  The claim: with at most one page the set is empty, no text is excluded by
  repetition.  The function has no case for a single page: the threshold
  \<open>num_pages // 2\<close> is then 0 and every count in the counter is at least 1, so the one
  line \<open>Header\<close> in the top margin of a document of one page, 800 high, is in the set,
  though no text of a single page appears on multiple pages.
\<close>

theorem find_repeated_elements_single_page:
  "find_repeated_elements [header_line] 1 800 = {ustr ''Header''} \<and>
   find_repeated_elements [header_line] 1 800 \<noteq> {}"
  by (simp add: find_repeated_elements_def margin_counter_def in_margin_def header_line_def)

section \<open>The outline\<close>

lemma extract_headings_concat:
  "extract_headings db repeated h1 h2 h3 ls acc =
     acc @ concat (map (level_entry db repeated h1 h2 h3) ls)"
  by (induction ls arbitrary: acc) (auto simp: level_entry_def Let_def)

lemma extract_headings_entry:
  assumes "e \<in> set (extract_headings db repeated h1 h2 h3 ls [])"
  shows "\<exists>feat \<in> set ls. entry_text e = lf_text feat \<and> entry_page e = lf_page feat \<and>
           lf_text feat \<notin> repeated \<and> is_valid_heading db (lf_text feat) \<and>
           entry_level e \<in> {''H1'', ''H2'', ''H3''}"
proof -
  from assms obtain feat where f: "feat \<in> set ls"
    and e: "e \<in> set (level_entry db repeated h1 h2 h3 feat)"
    by (auto simp: extract_headings_concat)
  from e have "entry_text e = lf_text feat \<and> entry_page e = lf_page feat \<and>
           lf_text feat \<notin> repeated \<and> is_valid_heading db (lf_text feat) \<and>
           entry_level e \<in> {''H1'', ''H2'', ''H3''}"
    by (auto simp: level_entry_def split: if_splits)
  with f show ?thesis by blast
qed

lemma line_feature_of_page:
  "line_feature_of db i l = Some feat \<Longrightarrow> lf_page feat = int i + 1"
  by (cases l) (auto simp: Let_def split: if_splits)

lemma collect_lines_page:
  assumes "feat \<in> set (collect_lines db doc n)"
  shows "1 \<le> lf_page feat \<and> lf_page feat \<le> int n"
proof -
  from assms obtain i l where "i < n" and "line_feature_of db i l = Some feat"
    by (auto simp: collect_lines_def set_map_filter_iff)
  then show ?thesis using line_feature_of_page[of db i l feat] by simp
qed

lemma extract_outline_Parsed:
  assumes "extract_outline db (Parsed doc) = Inr out"
  shows "\<exists>h1 h2 h3.
           get_heading_levels (map lf_size (collect_lines db doc (num_pages_of doc))) =
             [h1, h2, h3] \<and>
           out_outline out = extract_headings db (repeated_of db doc) h1 h2 h3
                               (collect_lines db doc (num_pages_of doc)) [] \<and>
           extract_title doc = Inr (out_title out)"
proof -
  obtain h1 h2 h3 where
    h: "get_heading_levels (map lf_size (collect_lines db doc (num_pages_of doc))) = [h1, h2, h3]"
    using get_heading_levels_three by blast
  with assms show ?thesis
    by (auto simp: extract_outline_def fitz_open_def Let_def split: sum.splits)
qed

lemma extract_outline_Unparsable: "extract_outline db Unparsable = Inl FileDataError"
  by (simp add: extract_outline_def fitz_open_def)

lemma outline_entry_origin:
  assumes "extract_outline db (Parsed doc) = Inr out" and "e \<in> set (out_outline out)"
  shows "\<exists>feat \<in> set (collect_lines db doc (num_pages_of doc)).
           entry_text e = lf_text feat \<and> entry_page e = lf_page feat \<and>
           lf_text feat \<notin> repeated_of db doc \<and> is_valid_heading db (lf_text feat) \<and>
           entry_level e \<in> {''H1'', ''H2'', ''H3''}"
  using extract_outline_Parsed[OF assms(1)] assms(2) extract_headings_entry by metis

subsection \<open>The sample document, step by step\<close>

lemma sample_collect:
  "collect_lines sample_tables sample_doc (num_pages_of sample_doc) =
     [header_line, intro_line, body_line, cjk_line]"
  by (simp add: collect_lines_def num_pages_of_def MAX_PAGES_def sample_doc_def
      header_line_def intro_line_def body_line_def cjk_line_def
      page_lines_def sample_tables_def ustr_def py_strip_def isspace_def py_split_def
      bbox_y0_def bbox_y1_def is_bold_def Let_def)

lemma sample_valid:
  "is_valid_heading sample_tables (ustr ''Header'')"
  "is_valid_heading sample_tables (ustr ''Intro'')"
  "is_valid_heading sample_tables (ustr ''Abc def'')"
  "is_valid_heading sample_tables [20013, 25991, 26631, 39064]"
  by (simp_all add: is_valid_heading_def sample_tables_def ustr_def py_strip_def isspace_def
      py_split_def numeral_pattern_def form_words_def endswith_def Let_def)

lemma sample_repeated: "repeated_of sample_tables sample_doc = {ustr ''Header''}"
  by (simp add: repeated_of_def sample_collect)
     (simp add: header_line_def intro_line_def body_line_def cjk_line_def
      find_repeated_elements_def margin_counter_def in_margin_def
      page_height_of_def num_pages_of_def MAX_PAGES_def sample_doc_def ustr_def)

lemma sample_levels:
  "get_heading_levels
     (map lf_size (collect_lines sample_tables sample_doc (num_pages_of sample_doc))) =
   [20, 10, 0]"
  by (simp only: sample_collect)
     (simp add: header_line_def intro_line_def body_line_def cjk_line_def
      get_heading_levels_def Counter_def most_common_def)

lemma sample_title: "extract_title sample_doc = Inr (ustr ''Header'')"
  by (simp add: extract_title_def extract_title_page_def sample_doc_def page_spans_def
      is_bold_def ustr_def py_strip_def isspace_def max_by_size_def Let_def)

lemma sample_headings:
  "extract_headings sample_tables (repeated_of sample_tables sample_doc) 20 10 0
     (collect_lines sample_tables sample_doc (num_pages_of sample_doc)) [] =
   [intro_entry, body_entry]"
  using sample_valid
  by (simp only: sample_collect sample_repeated)
     (simp add: header_line_def intro_line_def body_line_def cjk_line_def
      intro_entry_def body_entry_def ustr_def)

lemma sample_outline:
  "extract_outline sample_tables (Parsed sample_doc) = Inr sample_result"
  by (simp add: extract_outline_def fitz_open_def sample_levels sample_headings sample_title
      sample_result_def)

subsection \<open>Documents without pages\<close>

text \<open>
  C4.  The claim: a document with zero pages makes the call fail, and no outline is
  returned.  With a title in the metadata the page is never read: the call returns the
  title and the empty outline.
\<close>

theorem zero_pages_counterexample:
  "pages titled_empty_doc = [] \<and>
   extract_outline sample_tables (Parsed titled_empty_doc) =
     Inr \<lparr> out_title = ustr ''Report'', out_outline = [] \<rparr>"
  by (simp add: extract_outline_def fitz_open_def titled_empty_doc_def repeated_of_def
      collect_lines_def num_pages_of_def find_repeated_elements_def margin_counter_def
      get_heading_levels_def Counter_def most_common_def extract_title_def clean_title_def
      strip_word_prefix_def strip_doc_suffix_def startswith_def endswith_def
      ustr_def py_strip_def isspace_def)

text \<open>
  C4 as amended.  A file that cannot be opened makes the call fail with the error of the
  opening.  A document with zero pages makes the call fail, with the error of reading
  page 0, exactly when the metadata has no title or a title that is empty or whitespace;
  otherwise the call returns the cleaned metadata title and the empty outline.
\<close>

theorem zero_pages:
  assumes "pages doc = []"
  shows "extract_outline db Unparsable = Inl FileDataError \<and>
         extract_outline db (Parsed doc) =
           (case metadata_title doc of
              None \<Rightarrow> Inl IndexError
            | Some meta \<Rightarrow>
                if meta \<noteq> [] \<and> py_strip meta \<noteq> []
                then Inr \<lparr> out_title = clean_title meta, out_outline = [] \<rparr>
                else Inl IndexError)"
proof -
  have n: "num_pages_of doc = 0" using assms by (simp add: num_pages_of_def)
  have c: "collect_lines db doc 0 = []" by (simp add: collect_lines_def)
  have g: "get_heading_levels [] = [0, 0, 0]"
    by (simp add: get_heading_levels_def Counter_def most_common_def)
  have t: "extract_title_page doc = Inl IndexError"
    using assms by (simp add: extract_title_page_def)
  have "extract_outline db (Parsed doc) =
           (case metadata_title doc of
              None \<Rightarrow> Inl IndexError
            | Some meta \<Rightarrow>
                if meta \<noteq> [] \<and> py_strip meta \<noteq> []
                then Inr \<lparr> out_title = clean_title meta, out_outline = [] \<rparr>
                else Inl IndexError)"
    by (simp add: extract_outline_def fitz_open_def n c g t extract_title_def Let_def
        split: option.splits)
  then show ?thesis by (simp add: extract_outline_Unparsable)
qed

theorem zero_pages_witness:
  "pages untitled_empty_doc = [] \<and>
   extract_outline sample_tables Unparsable = Inl FileDataError \<and>
   extract_outline sample_tables (Parsed untitled_empty_doc) = Inl IndexError"
  using zero_pages[of untitled_empty_doc sample_tables]
  by (simp add: untitled_empty_doc_def)

subsection \<open>The entries of the outline\<close>

text \<open>
  C6.  Every entry of the outline of a document has a text that passes
  \<open>is_valid_heading\<close> and that is not in the set of repeated elements of the document.
\<close>

theorem outline_entries_filtered:
  assumes "extract_outline db (Parsed doc) = Inr out" and "e \<in> set (out_outline out)"
  shows "is_valid_heading db (entry_text e) \<and> entry_text e \<notin> repeated_of db doc"
  using outline_entry_origin[OF assms] by auto

theorem outline_entries_filtered_witness:
  "extract_outline sample_tables (Parsed sample_doc) = Inr sample_result \<and>
   intro_entry \<in> set (out_outline sample_result) \<and>
   is_valid_heading sample_tables (entry_text intro_entry) \<and>
   entry_text intro_entry \<notin> repeated_of sample_tables sample_doc \<and>
   ustr ''Header'' \<in> repeated_of sample_tables sample_doc"
proof -
  have m: "intro_entry \<in> set (out_outline sample_result)"
    by (simp add: sample_result_def)
  from outline_entries_filtered[OF sample_outline m] sample_outline m sample_repeated
  show ?thesis by simp
qed

text \<open>
  C7.  Every entry of the outline of a document has one of the levels H1, H2 and H3 and
  a page number from 1 to the smaller of the number of pages and 50.
\<close>

theorem outline_entries_level_page:
  assumes "extract_outline db (Parsed doc) = Inr out" and "e \<in> set (out_outline out)"
  shows "entry_level e \<in> {''H1'', ''H2'', ''H3''} \<and>
         1 \<le> entry_page e \<and> entry_page e \<le> int (min (length (pages doc)) 50)"
proof -
  from outline_entry_origin[OF assms] obtain feat where
    f: "feat \<in> set (collect_lines db doc (num_pages_of doc))" and
    e: "entry_page e = lf_page feat" "entry_level e \<in> {''H1'', ''H2'', ''H3''}"
    by blast
  from collect_lines_page[OF f] e show ?thesis
    by (simp add: num_pages_of_def MAX_PAGES_def)
qed

theorem outline_entries_level_page_witness:
  "extract_outline sample_tables (Parsed sample_doc) = Inr sample_result \<and>
   body_entry \<in> set (out_outline sample_result) \<and>
   entry_level body_entry \<in> {''H1'', ''H2'', ''H3''} \<and>
   1 \<le> entry_page body_entry \<and>
   entry_page body_entry \<le> int (min (length (pages sample_doc)) 50)"
proof -
  have m: "body_entry \<in> set (out_outline sample_result)"
    by (simp add: sample_result_def)
  from outline_entries_level_page[OF sample_outline m] sample_outline m
  show ?thesis by simp
qed

text \<open>
  C8.  When the call returns, the title is not the empty string: the cleaned metadata
  title keeps the last code point of the trimmed title or at least one code point before
  the removed suffix, the two choices from page 1 are texts that are not empty after
  trimming, and the last resort is \<open>Untitled PDF\<close>.
\<close>

theorem title_nonempty:
  assumes "extract_outline db pdf = Inr out"
  shows "out_title out \<noteq> []"
proof (cases pdf)
  case Unparsable
  with assms show ?thesis by (simp add: extract_outline_Unparsable)
next
  case (Parsed doc)
  with assms extract_outline_Parsed[of db doc out]
  have "extract_title doc = Inr (out_title out)"
    by auto
  then show ?thesis by (rule extract_title_nonempty)
qed

theorem title_nonempty_witness:
  "extract_outline sample_tables (Parsed sample_doc) = Inr sample_result \<and>
   out_title sample_result \<noteq> [] \<and> out_title sample_result = ustr ''Header''"
  using title_nonempty[OF sample_outline] sample_outline
  by (simp add: sample_result_def)

text \<open>
  C9.  A line that is not a repeated element and passes \<open>is_valid_heading\<close> adds, at its
  place in the outline, one H1 entry when its size is \<open>h1\<close> and it is bold or has no CJK
  code point; failing that, one H2 entry when its size is \<open>h2\<close>; failing that, one H3
  entry when its size is \<open>h3\<close>; and nothing otherwise.
\<close>

theorem level_assignment:
  assumes "lf_text feat \<notin> repeated" and "is_valid_heading db (lf_text feat)"
  shows "extract_headings db repeated h1 h2 h3 (before @ feat # after) [] =
           extract_headings db repeated h1 h2 h3 before [] @
           (if lf_size feat = h1 \<and> (lf_bold feat \<or> \<not> has_cjk (lf_text feat))
              then [\<lparr> entry_level = ''H1'', entry_text = lf_text feat, entry_page = lf_page feat \<rparr>]
            else if lf_size feat = h2
              then [\<lparr> entry_level = ''H2'', entry_text = lf_text feat, entry_page = lf_page feat \<rparr>]
            else if lf_size feat = h3
              then [\<lparr> entry_level = ''H3'', entry_text = lf_text feat, entry_page = lf_page feat \<rparr>]
            else []) @
           extract_headings db repeated h1 h2 h3 after []"
  using assms by (simp add: extract_headings_concat level_entry_def)

theorem level_assignment_witness:
  "lf_text cjk_line \<notin> {ustr ''Header''} \<and>
   is_valid_heading sample_tables (lf_text cjk_line) \<and>
   lf_size cjk_line = 20 \<and> \<not> lf_bold cjk_line \<and> has_cjk (lf_text cjk_line) \<and>
   extract_headings sample_tables {ustr ''Header''} 20 10 0
     ([header_line, intro_line, body_line] @ cjk_line # []) [] =
   extract_headings sample_tables {ustr ''Header''} 20 10 0
     [header_line, intro_line, body_line] [] @ [] @ []"
proof -
  have t: "lf_text cjk_line = [20013, 25991, 26631, 39064]"
    by (simp add: cjk_line_def)
  have a: "lf_text cjk_line \<notin> {ustr ''Header''}"
    by (simp add: t ustr_def)
  have b: "is_valid_heading sample_tables (lf_text cjk_line)"
    by (simp add: t sample_valid)
  have c: "lf_size cjk_line = 20 \<and> \<not> lf_bold cjk_line \<and> has_cjk (lf_text cjk_line)"
    by (simp add: cjk_line_def)
  from level_assignment[OF a b, of 20 10 0 "[header_line, intro_line, body_line]" "[]"] a b c
  show ?thesis by simp
qed

section \<open>The prefix of the metadata title\<close>

lemma startswith_nth:
  assumes "startswith (drop i s) old" and "old \<noteq> []"
  shows "i < length s \<and> s ! i = old ! 0"
proof -
  from assms(1) have t: "take (length old) (drop i s) = old"
    by (simp add: startswith_def)
  then have "length (take (length old) (drop i s)) = length old" by simp
  with assms(2) have i: "i < length s" by (cases "i < length s") auto
  from t have "take (length old) (drop i s) ! 0 = old ! 0" by simp
  with assms(2) i have "s ! i = old ! 0" by simp
  with i show ?thesis by simp
qed

lemma covered_Cons_0: "old \<noteq> [] \<Longrightarrow> covered old (c # cs) 0 \<longleftrightarrow> startswith (c # cs) old"
  by (simp add: covered_def)

lemma covered_Cons_Suc:
  assumes "\<not> startswith (c # cs) old"
  shows "covered old (c # cs) (Suc j) \<longleftrightarrow> covered old cs j"
proof
  assume "covered old (c # cs) (Suc j)"
  then obtain i where i: "i \<le> Suc j" "Suc j < i + length old" "startswith (drop i (c # cs)) old"
    by (auto simp: covered_def)
  show "covered old cs j"
  proof (cases i)
    case 0
    with i(3) assms show ?thesis by simp
  next
    case (Suc i')
    with i have "i' \<le> j \<and> j < i' + length old \<and> startswith (drop i' cs) old" by simp
    then show ?thesis unfolding covered_def by blast
  qed
next
  assume "covered old cs j"
  then obtain i where "i \<le> j" "j < i + length old" "startswith (drop i cs) old"
    by (auto simp: covered_def)
  then have "Suc i \<le> Suc j \<and> Suc j < Suc i + length old \<and> startswith (drop (Suc i) (c # cs)) old"
    by simp
  then show "covered old (c # cs) (Suc j)" unfolding covered_def by blast
qed

text \<open>
  When the first code point of \<open>old\<close> occurs nowhere else in \<open>old\<close>, no occurrence starts
  inside another one.
\<close>

lemma covered_after_occurrence:
  assumes ne: "old \<noteq> []"
    and fu: "\<forall>i. 0 < i \<and> i < length old \<longrightarrow> old ! i \<noteq> old ! 0"
  shows "covered old (old @ rest) j \<longleftrightarrow> j < length old \<or> covered old rest (j - length old)"
proof (cases "j < length old")
  case True
  have "startswith (drop 0 (old @ rest)) old" by (simp add: startswith_def)
  with True have "covered old (old @ rest) j" unfolding covered_def by (intro exI[of _ 0]) simp
  with True show ?thesis by simp
next
  case False
  have "covered old (old @ rest) j \<longleftrightarrow> covered old rest (j - length old)"
  proof
    assume "covered old (old @ rest) j"
    then obtain i where i: "i \<le> j" "j < i + length old" "startswith (drop i (old @ rest)) old"
      by (auto simp: covered_def)
    have "\<not> i < length old"
    proof
      assume l: "i < length old"
      from startswith_nth[OF i(3) ne] l have "old ! i = old ! 0" by (simp add: nth_append)
      moreover from i(2) False have "0 < i" by simp
      ultimately show False using fu l by blast
    qed
    then have ge: "length old \<le> i" by simp
    then have "startswith (drop (i - length old) rest) old" using i(3) by simp
    moreover have "i - length old \<le> j - length old" using i(1) by simp
    moreover have "j - length old < (i - length old) + length old" using i(2) ge False by simp
    ultimately show "covered old rest (j - length old)" unfolding covered_def by blast
  next
    assume "covered old rest (j - length old)"
    then obtain i where i: "i \<le> j - length old" "j - length old < i + length old"
        "startswith (drop i rest) old"
      by (auto simp: covered_def)
    have "startswith (drop (i + length old) (old @ rest)) old" using i(3) by simp
    moreover have "i + length old \<le> j" using i(1) False by arith
    moreover have "j < (i + length old) + length old" using i(2) False by arith
    ultimately show "covered old (old @ rest) j" unfolding covered_def by blast
  qed
  with False show ?thesis by simp
qed

lemma remove_all_without_occurrences:
  assumes ne: "old \<noteq> []"
    and fu: "\<forall>i. 0 < i \<and> i < length old \<longrightarrow> old ! i \<noteq> old ! 0"
  shows "remove_all old s = without_occurrences old s"
proof (induction s rule: length_induct)
  case (1 s)
  show ?case
  proof (cases s)
    case Nil
    then show ?thesis by (simp add: remove_all.simps without_occurrences_def)
  next
    case (Cons c cs)
    show ?thesis
    proof (cases "startswith (c # cs) old")
      case True
      let ?rest = "drop (length old) (c # cs)"
      have eq: "c # cs = old @ ?rest" using True by (rule startswith_append)
      have "length ?rest < length s" using ne Cons by (cases old) auto
      with "1.IH" have ih: "remove_all old ?rest = without_occurrences old ?rest" by blast
      have u: "remove_all old (c # cs) = remove_all old ?rest"
        using True ne by (simp only: remove_all.simps(2) if_True simp_thms)
      have a: "nths old {j. \<not> covered old (old @ ?rest) j} = []"
      proof -
        have "set (nths old {j. \<not> covered old (old @ ?rest) j}) = {}"
          by (auto simp: set_nths covered_after_occurrence[OF ne fu])
        then show ?thesis by simp
      qed
      have b: "{j. j + length old \<in> {j. \<not> covered old (old @ ?rest) j}} =
               {j. \<not> covered old ?rest j}"
        by (simp add: covered_after_occurrence[OF ne fu])
      have "without_occurrences old (old @ ?rest) = without_occurrences old ?rest"
        unfolding without_occurrences_def nths_append a b by simp
      with eq have "without_occurrences old (c # cs) = without_occurrences old ?rest"
        by simp
      with u ih Cons show ?thesis by simp
    next
      case False
      have "length cs < length s" using Cons by simp
      with "1.IH" have ih: "remove_all old cs = without_occurrences old cs" by blast
      have u: "remove_all old (c # cs) = c # remove_all old cs"
        using False by (simp only: remove_all.simps(2) if_False simp_thms)
      have "without_occurrences old (c # cs) = c # without_occurrences old cs"
        using False ne
        by (simp add: without_occurrences_def nths_Cons covered_Cons_0 covered_Cons_Suc)
      with u ih Cons show ?thesis by simp
    qed
  qed
qed

lemma first_unique_nth:
  assumes "\<forall>c \<in> set (tl old). c \<noteq> hd old"
  shows "\<forall>i. 0 < i \<and> i < length old \<longrightarrow> old ! i \<noteq> old ! 0"
proof (intro allI impI)
  fix i
  assume i: "0 < i \<and> i < length old"
  then obtain x xs where old: "old = x # xs" by (cases old) auto
  from i obtain k where k: "i = Suc k" by (cases i) auto
  with i old have "xs ! k \<in> set xs" by simp
  with assms old have "xs ! k \<noteq> x" by simp
  with old k show "old ! i \<noteq> old ! 0" by simp
qed

lemma word_prefix_first_unique:
  "\<forall>i. 0 < i \<and> i < length (ustr ''Microsoft Word - '') \<longrightarrow>
     ustr ''Microsoft Word - '' ! i \<noteq> ustr ''Microsoft Word - '' ! 0"
  by (rule first_unique_nth) (simp add: ustr_def)

lemma strip_word_prefix_occurrences:
  "strip_word_prefix t =
     (if startswith t (ustr ''Microsoft Word - '')
      then without_occurrences (ustr ''Microsoft Word - '') t else t)"
  by (simp add: strip_word_prefix_def
      remove_all_without_occurrences[OF word_prefix_facts(2) word_prefix_first_unique])

text \<open>
  C10.  The claim: every occurrence of \<open>Microsoft Word - \<close> in the trimmed metadata title
  is removed.  The replacement is guarded by \<open>startswith\<close>: a title that has the substring
  in its middle only is returned with it.
\<close>

theorem word_inside_title_counterexample:
  "metadata_title word_inside_doc = Some (ustr ''A Microsoft Word - B'') \<and>
   extract_title word_inside_doc = Inr (ustr ''A Microsoft Word - B'')"
  by (simp add: extract_title_def clean_title_def strip_word_prefix_def strip_doc_suffix_def
      word_inside_doc_def ustr_def py_strip_def isspace_def startswith_def endswith_def)

text \<open>
  C10 as amended.  For a metadata title that is not blank: when the trimmed title starts
  with \<open>Microsoft Word - \<close>, every occurrence of that substring in it is removed, the
  leading one and the later ones, and the code points outside the occurrences stay in
  order; when the trimmed title does not start with it, nothing is removed.  The rule for
  the suffix is applied to the result.
\<close>

theorem word_prefix_removal:
  assumes "metadata_title doc = Some meta" and "py_strip meta \<noteq> []"
  shows "extract_title doc =
           Inr (strip_doc_suffix
                 (if startswith (py_strip meta) (ustr ''Microsoft Word - '')
                  then without_occurrences (ustr ''Microsoft Word - '') (py_strip meta)
                  else py_strip meta))"
proof -
  from assms(2) have "meta \<noteq> []" by (auto simp: py_strip_def)
  with assms show ?thesis
    by (simp add: extract_title_def clean_title_def strip_word_prefix_occurrences)
qed

theorem word_prefix_removal_witness:
  "metadata_title word_twice_doc = Some (ustr ''Microsoft Word - A Microsoft Word - B'') \<and>
   py_strip (ustr ''Microsoft Word - A Microsoft Word - B'') \<noteq> [] \<and>
   startswith (py_strip (ustr ''Microsoft Word - A Microsoft Word - B''))
     (ustr ''Microsoft Word - '') \<and>
   extract_title word_twice_doc =
     Inr (strip_doc_suffix
           (without_occurrences (ustr ''Microsoft Word - '')
              (py_strip (ustr ''Microsoft Word - A Microsoft Word - B'')))) \<and>
   extract_title word_twice_doc = Inr (ustr ''A B'')"
proof -
  have m: "metadata_title word_twice_doc = Some (ustr ''Microsoft Word - A Microsoft Word - B'')"
    by (simp add: word_twice_doc_def)
  have s: "py_strip (ustr ''Microsoft Word - A Microsoft Word - B'') =
             ustr ''Microsoft Word - A Microsoft Word - B''"
    by (simp add: ustr_def py_strip_def isspace_def)
  have n: "py_strip (ustr ''Microsoft Word - A Microsoft Word - B'') \<noteq> []"
    unfolding s by (simp add: ustr_def)
  have p: "startswith (py_strip (ustr ''Microsoft Word - A Microsoft Word - B''))
             (ustr ''Microsoft Word - '')"
    unfolding s by (simp add: ustr_def startswith_def)
  have v: "extract_title word_twice_doc = Inr (ustr ''A B'')"
    by (simp add: extract_title_def clean_title_def strip_word_prefix_def strip_doc_suffix_def
        word_twice_doc_def ustr_def py_strip_def isspace_def startswith_def endswith_def
        remove_all.simps)
  from word_prefix_removal[OF m n] p have
    "extract_title word_twice_doc =
       Inr (strip_doc_suffix
             (without_occurrences (ustr ''Microsoft Word - '')
                (py_strip (ustr ''Microsoft Word - A Microsoft Word - B''))))"
    by (simp only: if_True)
  with m n p v show ?thesis by (intro conjI)
qed

end
